theory Spec2Isabelle
  imports Main "HOL-Library.Sublist"
begin

section \<open>Values, errors and strings\<close>

text \<open>
  The pipeline of mkt-chatbot moves JSON documents between a crawler, an object store
  and a document store. A parsed JSON document is a value of \<open>json\<close>; a Python
  \<open>dict\<close> is the list of its items in iteration order. JSON numbers are integers
  here (floating point is not modelled). A Python \<open>str\<close> is a \<open>string\<close>: a
  \<open>char\<close> stands for one code point, of which the type has the first 256.
\<close>

datatype json = JNull | JBool bool | JInt int | JStr string
  | JList "json list" | JDict "(string \<times> json) list"

text \<open>
  The exceptions the modelled code can raise. A raise is the value \<open>Inl e\<close>.
  \<open>NotModelled\<close> is no exception of Python: it is the answer of \<open>loads\<close> below on a
  text whose value this development does not represent (a float, a code point from 256
  on).
\<close>

datatype error = IndexError | TypeError | AttributeError | JSONDecodeError
  | NoSuchKey | ParserError | NotModelled

text \<open>\<open>sep.join(xs)\<close>\<close>

fun py_join :: "string \<Rightarrow> string list \<Rightarrow> string" where
  "py_join sep [] = []"
| "py_join sep [x] = x"
| "py_join sep (x # y # ys) = x @ sep @ py_join sep (y # ys)"

text \<open>
  \<open>s.replace(old, new)\<close>: the occurrences of \<open>old\<close> are replaced from left to
  right, without overlap. The source only calls it with a non-empty \<open>old\<close>; with an
  empty one this function returns \<open>s\<close>, which is not what Python does.
\<close>

function str_replace :: "string \<Rightarrow> string \<Rightarrow> string \<Rightarrow> string" where
  "str_replace old new [] = []"
| "str_replace old new (c # cs) =
     (if old \<noteq> [] \<and> prefix old (c # cs)
      then new @ str_replace old new (drop (length old) (c # cs))
      else c # str_replace old new cs)"
  by pat_completeness auto
termination
  by (relation "measure (\<lambda>(old, new, s). length s)") (auto simp: prefix_def)

text \<open>
  \<open>s.strip()\<close> removes the white space at both ends. Below code point 256 Python's
  \<open>str.isspace\<close> holds of 9 to 13, 28 to 32, 133 and 160.
\<close>

definition is_space :: "char \<Rightarrow> bool" where
  "is_space c = ((of_char c :: nat) \<in> {9, 10, 11, 12, 13, 28, 29, 30, 31, 32, 133, 160})"

definition strip :: "string \<Rightarrow> string" where
  "strip s = rev (dropWhile is_space (rev (dropWhile is_space s)))"

text \<open>
  \<open>url.split("://")\<close>: \<open>cur\<close> holds, reversed, the characters of the piece being
  read.
\<close>

fun split_scheme :: "string \<Rightarrow> string \<Rightarrow> string list" where
  "split_scheme cur [] = [rev cur]"
| "split_scheme cur (c # cs) =
     (if c = CHR '':'' \<and> take 2 cs = ''//''
      then rev cur # split_scheme [] (drop 2 cs)
      else split_scheme (c # cur) cs)"

text \<open>Python's truth value of a JSON value (\<open>if text\<close>).\<close>

fun truthy :: "json \<Rightarrow> bool" where
  "truthy JNull = False"
| "truthy (JBool b) = b"
| "truthy (JInt n) = (n \<noteq> 0)"
| "truthy (JStr s) = (s \<noteq> [])"
| "truthy (JList xs) = (xs \<noteq> [])"
| "truthy (JDict kvs) = (kvs \<noteq> [])"

text \<open>
  \<open>d.get(key)\<close> on a value that \<open>json.loads\<close> returned: \<open>None\<close> for a missing
  key, and AttributeError when the value is not a dict.
\<close>

fun py_get :: "json \<Rightarrow> string \<Rightarrow> error + json" where
  "py_get (JDict kvs) key = Inr (case map_of kvs key of None \<Rightarrow> JNull | Some v \<Rightarrow> v)"
| "py_get v key = Inl AttributeError"

section \<open>The object store client (aws/s3.py)\<close>

text \<open>
  A bucket is the list of its objects, key and body. The service lists the keys in the
  order of their bytes; the model lists them in the order of this list, in which
  \<open>put_object\<close> puts a new key last, and no theorem below depends on that order. The
  body is the text that was put (boto3 encodes it as UTF-8 and \<open>read_json\<close> decodes it
  again). \<open>json.dumps\<close> and \<open>json.loads\<close> belong to Python's library: they are
  parameters of the functions that call them, and the next section has them as the
  functions \<open>dumps\<close> and \<open>loads\<close>. \<open>save_dict_to_json\<close> passes its \<open>item\<close> to
  \<open>json.dumps\<close> as it gets it, so the type of \<open>item\<close> is the type of what
  \<open>json_dumps\<close> takes.
\<close>

type_synonym bucket = "(string \<times> string) list"

text \<open>\<open>client.put_object(Bucket, Body, Key)\<close>: a new object, or a new body for the key.\<close>

fun put_object :: "bucket \<Rightarrow> string \<Rightarrow> string \<Rightarrow> bucket" where
  "put_object [] key body = [(key, body)]"
| "put_object ((k, v) # objs) key body =
     (if k = key then (key, body) # objs else (k, v) # put_object objs key body)"

definition save_dict_to_json :: "('a \<Rightarrow> string) \<Rightarrow> bucket \<Rightarrow> 'a \<Rightarrow> string \<Rightarrow> bucket" where
  "save_dict_to_json json_dumps b item path = put_object b path (json_dumps item)"

text \<open>
  \<open>client.list_objects_v2(Bucket, Prefix)\<close> answers with at most 1000 objects, under
  \<open>Contents\<close>, and without \<open>Contents\<close> when no key has the prefix.
\<close>

definition max_keys :: nat where
  "max_keys = 1000"

definition list_objects_v2 :: "bucket \<Rightarrow> string \<Rightarrow> (string \<times> string) list option" where
  "list_objects_v2 b pre =
     (let found = take max_keys (filter (\<lambda>obj. prefix pre (fst obj)) b)
      in if found = [] then None else Some found)"

definition list_files_from_path :: "bucket \<Rightarrow> string \<Rightarrow> string list option" where
  "list_files_from_path b path =
     (case list_objects_v2 b path of
        None \<Rightarrow> None
      | Some objects \<Rightarrow> if objects = [] then None else Some (map fst objects))"

definition read_json :: "(string \<Rightarrow> error + json) \<Rightarrow> bucket \<Rightarrow> string \<Rightarrow> error + json" where
  "read_json json_loads b path =
     (case map_of b path of
        None \<Rightarrow> Inl NoSuchKey
      | Some string_content \<Rightarrow> json_loads string_content)"

section \<open>Python's json module\<close>

text \<open>
  What \<open>json.dumps\<close> is given. \<open>json\<close> is what \<open>json.loads\<close> returns: a dict whose
  keys are strings. A dict that a caller builds can also have integers, booleans and
  \<open>None\<close> as keys, which \<open>json.dumps\<close> accepts; \<open>pyval\<close> has them. \<open>of_json\<close> is
  a \<open>json\<close> value as the Python value it is. Floats and tuples are not modelled.
\<close>

datatype pykey = KStr string | KInt int | KBool bool | KNone

datatype pyval = PNone | PBool bool | PInt int | PStr string
  | PList "pyval list" | PDict "(pykey \<times> pyval) list"

fun of_json :: "json \<Rightarrow> pyval"
  and of_json_list :: "json list \<Rightarrow> pyval list"
  and of_json_items :: "(string \<times> json) list \<Rightarrow> (pykey \<times> pyval) list" where
  "of_json JNull = PNone"
| "of_json (JBool b) = PBool b"
| "of_json (JInt n) = PInt n"
| "of_json (JStr s) = PStr s"
| "of_json (JList xs) = PList (of_json_list xs)"
| "of_json (JDict kvs) = PDict (of_json_items kvs)"
| "of_json_list [] = []"
| "of_json_list (x # xs) = of_json x # of_json_list xs"
| "of_json_items [] = []"
| "of_json_items ((k, v) # kvs) = (KStr k, of_json v) # of_json_items kvs"


text \<open>\<open>str(n)\<close> of an integer: its decimal digits, after \<open>-\<close> when it is negative.\<close>

function digits :: "nat \<Rightarrow> string" where
  "digits n = (if n < 10 then [char_of (48 + n)] else digits (n div 10) @ [char_of (48 + n mod 10)])"
  by pat_completeness auto
termination
  by (relation "measure (\<lambda>n. n)") auto

declare digits.simps [simp del]

definition str_int :: "int \<Rightarrow> string" where
  "str_int n = (if n < 0 then CHR ''-'' # digits (nat (- n)) else digits (nat n))"

text \<open>
  Modelled from the spec: \<open>json.dumps\<close> of Python's library, which is not under src/.
  The spec (4.3): put serializes a mapping to JSON. This is the text \<open>json.dumps\<close>
  writes with its default arguments: \<open>null\<close>, \<open>true\<close>, \<open>false\<close>, integers in
  decimal, and strings between double quotes, in which the double quote, the backslash
  and every character outside the range from the space to \<open>~\<close> are escaped: a
  backslash and a letter for the newline, the carriage return, the tab, the backspace
  and the form feed, and a backslash, \<open>u\<close> and four hexadecimal digits for the
  others. The items of a list are separated by a comma and a space, and a dict is its
  members, each the key, a colon, a space and the value; a key that is not a string is
  written as the string of its text.
\<close>

definition hex_digit :: "nat \<Rightarrow> char" where
  "hex_digit d = (if d < 10 then char_of (48 + d) else char_of (87 + d))"

definition escape_char :: "char \<Rightarrow> string" where
  "escape_char c =
     (if c = CHR 0x22 then [CHR 0x5C, CHR 0x22]
      else if c = CHR 0x5C then [CHR 0x5C, CHR 0x5C]
      else if c = CHR 0x0A then [CHR 0x5C, CHR ''n'']
      else if c = CHR 0x0D then [CHR 0x5C, CHR ''r'']
      else if c = CHR 0x09 then [CHR 0x5C, CHR ''t'']
      else if c = CHR 0x08 then [CHR 0x5C, CHR ''b'']
      else if c = CHR 0x0C then [CHR 0x5C, CHR ''f'']
      else if 32 \<le> (of_char c :: nat) \<and> (of_char c :: nat) \<le> 126 then [c]
      else [CHR 0x5C, CHR ''u'', CHR ''0'', CHR ''0'',
            hex_digit ((of_char c :: nat) div 16), hex_digit ((of_char c :: nat) mod 16)])"

definition encode_basestring_ascii :: "string \<Rightarrow> string" where
  "encode_basestring_ascii s = CHR 0x22 # concat (map escape_char s) @ [CHR 0x22]"

fun key_text :: "pykey \<Rightarrow> string" where
  "key_text (KStr s) = s"
| "key_text (KInt n) = str_int n"
| "key_text (KBool b) = (if b then ''true'' else ''false'')"
| "key_text KNone = ''null''"

fun dumps :: "pyval \<Rightarrow> string"
  and dumps_list :: "pyval list \<Rightarrow> string"
  and dumps_items :: "(pykey \<times> pyval) list \<Rightarrow> string" where
  "dumps PNone = ''null''"
| "dumps (PBool b) = (if b then ''true'' else ''false'')"
| "dumps (PInt n) = str_int n"
| "dumps (PStr s) = encode_basestring_ascii s"
| "dumps (PList xs) = ''['' @ dumps_list xs @ '']''"
| "dumps (PDict kvs) = ''{'' @ dumps_items kvs @ ''}''"
| "dumps_list [] = []"
| "dumps_list [x] = dumps x"
| "dumps_list (x # y # ys) = dumps x @ '', '' @ dumps_list (y # ys)"
| "dumps_items [] = []"
| "dumps_items [(k, v)] = encode_basestring_ascii (key_text k) @ '': '' @ dumps v"
| "dumps_items ((k, v) # kv # kvs) =
     encode_basestring_ascii (key_text k) @ '': '' @ dumps v @ '', '' @ dumps_items (kv # kvs)"

text \<open>
  Modelled from the spec: \<open>json.loads\<close> of Python's library, which is not under src/.
  The spec (4.3): get returns the deserialized JSON mapping. This is the scanner of
  CPython's \<open>json\<close> module with its default arguments: white space is the space, the
  tab, the newline and the carriage return; a string may not hold a raw control
  character; a number with a fraction or an exponent, \<open>NaN\<close> and \<open>Infinity\<close> are
  floats, and an escape of four hexadecimal digits can name a code point from 256 on: for these the model
  answers \<open>NotModelled\<close>. A dict takes the members in their order, a later value for
  a key replacing the earlier one in its place. After the value only white space may
  follow. Any other text is a \<open>JSONDecodeError\<close>.

  The first argument of \<open>scan_once\<close>, \<open>JSONArray\<close> and \<open>JSONObject\<close> bounds the
  number of nested calls, so that the functions are defined by recursion on it;
  \<open>loads\<close> starts with twice the length of the text and two, and where the bound
  runs out the model answers \<open>NotModelled\<close>. The interpreter's own limits (the depth
  of recursion, the number of digits of an integer's text, memory) are not modelled.
\<close>

definition is_ws :: "char \<Rightarrow> bool" where
  "is_ws c = (c = CHR '' '' \<or> c = CHR 0x09 \<or> c = CHR 0x0A \<or> c = CHR 0x0D)"

definition skip_ws :: "string \<Rightarrow> string" where
  "skip_ws s = dropWhile is_ws s"

definition is_digit :: "char \<Rightarrow> bool" where
  "is_digit c = (48 \<le> (of_char c :: nat) \<and> (of_char c :: nat) \<le> 57)"

definition digit_val :: "char \<Rightarrow> nat" where
  "digit_val c = of_char c - 48"

definition int_of_digits :: "string \<Rightarrow> nat" where
  "int_of_digits ds = foldl (\<lambda>a c. 10 * a + digit_val c) 0 ds"

definition hex_val :: "char \<Rightarrow> nat option" where
  "hex_val c =
     (let n = (of_char c :: nat)
      in if 48 \<le> n \<and> n \<le> 57 then Some (n - 48)
         else if 97 \<le> n \<and> n \<le> 102 then Some (n - 87)
         else if 65 \<le> n \<and> n \<le> 70 then Some (n - 55)
         else None)"

fun hex4 :: "string \<Rightarrow> nat option" where
  "hex4 [a, b, c, d] =
     (case (hex_val a, hex_val b, hex_val c, hex_val d) of
        (Some x, Some y, Some z, Some w) \<Rightarrow> Some (((x * 16 + y) * 16 + z) * 16 + w)
      | _ \<Rightarrow> None)"
| "hex4 s = None"

definition unescape :: "char \<Rightarrow> char option" where
  "unescape e =
     (if e = CHR 0x22 then Some (CHR 0x22)
      else if e = CHR 0x5C then Some (CHR 0x5C)
      else if e = CHR ''/'' then Some (CHR ''/'')
      else if e = CHR ''b'' then Some (CHR 0x08)
      else if e = CHR ''f'' then Some (CHR 0x0C)
      else if e = CHR ''n'' then Some (CHR 0x0A)
      else if e = CHR ''r'' then Some (CHR 0x0D)
      else if e = CHR ''t'' then Some (CHR 0x09)
      else None)"

definition cons_char :: "char \<Rightarrow> error + (string \<times> string) \<Rightarrow> error + (string \<times> string)" where
  "cons_char c r = (case r of Inl e \<Rightarrow> Inl e | Inr (s, rest) \<Rightarrow> Inr (c # s, rest))"

fun scanstring :: "string \<Rightarrow> error + (string \<times> string)" where
  "scanstring [] = Inl JSONDecodeError"
| "scanstring (c # cs) =
     (if c = CHR 0x22 then Inr ([], cs)
      else if c = CHR 0x5C then
        (case cs of
           [] \<Rightarrow> Inl JSONDecodeError
         | e # cs' \<Rightarrow>
             if e = CHR ''u'' then
               (case hex4 (take 4 cs') of
                  None \<Rightarrow> Inl JSONDecodeError
                | Some n \<Rightarrow>
                    if 256 \<le> n then Inl NotModelled
                    else cons_char (char_of n) (scanstring (drop 4 cs')))
             else
               (case unescape e of
                  None \<Rightarrow> Inl JSONDecodeError
                | Some ch \<Rightarrow> cons_char ch (scanstring cs')))
      else if (of_char c :: nat) < 32 then Inl JSONDecodeError
      else cons_char c (scanstring cs))"

definition float_tail :: "string \<Rightarrow> bool" where
  "float_tail rest =
     (case rest of
        [] \<Rightarrow> False
      | c # cs \<Rightarrow>
          if c = CHR ''.'' then (case cs of [] \<Rightarrow> False | d # _ \<Rightarrow> is_digit d)
          else if c = CHR ''e'' \<or> c = CHR ''E'' then
            (case cs of
               [] \<Rightarrow> False
             | d # ds \<Rightarrow>
                 if d = CHR ''+'' \<or> d = CHR ''-''
                 then (case ds of [] \<Rightarrow> False | d' # _ \<Rightarrow> is_digit d')
                 else is_digit d)
          else False)"

definition match_number :: "string \<Rightarrow> (error + (json \<times> string)) option" where
  "match_number s =
     (let neg = (s \<noteq> [] \<and> hd s = CHR ''-'');
          s1 = (if neg then tl s else s)
      in case s1 of
           [] \<Rightarrow> None
         | d # ds \<Rightarrow>
             if \<not> is_digit d then None
             else
               (let integer = (if d = CHR ''0'' then [d] else d # takeWhile is_digit ds);
                    rest = (if d = CHR ''0'' then ds else dropWhile is_digit ds)
                in if float_tail rest then Some (Inl NotModelled)
                   else Some (Inr (JInt (if neg then - int (int_of_digits integer)
                                         else int (int_of_digits integer)), rest))))"

fun dict_set :: "(string \<times> json) list \<Rightarrow> string \<Rightarrow> json \<Rightarrow> (string \<times> json) list" where
  "dict_set [] key v = [(key, v)]"
| "dict_set ((k, w) # kvs) key v =
     (if k = key then (k, v) # kvs else (k, w) # dict_set kvs key v)"

definition py_dict :: "(string \<times> json) list \<Rightarrow> (string \<times> json) list" where
  "py_dict pairs = foldl (\<lambda>d kv. dict_set d (fst kv) (snd kv)) [] pairs"

fun scan_once :: "nat \<Rightarrow> string \<Rightarrow> error + (json \<times> string)"
  and JSONArray :: "nat \<Rightarrow> string \<Rightarrow> error + (json list \<times> string)"
  and JSONObject :: "nat \<Rightarrow> string \<Rightarrow> error + ((string \<times> json) list \<times> string)" where
  "scan_once 0 s = Inl NotModelled"
| "scan_once (Suc n) [] = Inl JSONDecodeError"
| "scan_once (Suc n) (c # cs) =
     (if c = CHR 0x22 then
        (case scanstring cs of
           Inl e \<Rightarrow> Inl e
         | Inr (str, rest) \<Rightarrow> Inr (JStr str, rest))
      else if c = CHR ''{'' then
        (case skip_ws cs of
           [] \<Rightarrow> Inl JSONDecodeError
         | c' # rest \<Rightarrow>
             if c' = CHR ''}'' then Inr (JDict [], rest)
             else (case JSONObject n (c' # rest) of
                     Inl e \<Rightarrow> Inl e
                   | Inr (pairs, rest') \<Rightarrow> Inr (JDict (py_dict pairs), rest')))
      else if c = CHR ''['' then
        (case skip_ws cs of
           [] \<Rightarrow> Inl JSONDecodeError
         | c' # rest \<Rightarrow>
             if c' = CHR '']'' then Inr (JList [], rest)
             else (case JSONArray n (c' # rest) of
                     Inl e \<Rightarrow> Inl e
                   | Inr (values, rest') \<Rightarrow> Inr (JList values, rest')))
      else if c = CHR ''n'' \<and> take 4 (c # cs) = ''null'' then Inr (JNull, drop 4 (c # cs))
      else if c = CHR ''t'' \<and> take 4 (c # cs) = ''true'' then Inr (JBool True, drop 4 (c # cs))
      else if c = CHR ''f'' \<and> take 5 (c # cs) = ''false'' then Inr (JBool False, drop 5 (c # cs))
      else
        (case match_number (c # cs) of
           Some r \<Rightarrow> r
         | None \<Rightarrow>
             if (c = CHR ''N'' \<and> take 3 (c # cs) = ''NaN'')
                \<or> (c = CHR ''I'' \<and> take 8 (c # cs) = ''Infinity'')
                \<or> (c = CHR ''-'' \<and> take 9 (c # cs) = ''-Infinity'')
             then Inl NotModelled
             else Inl JSONDecodeError))"
| "JSONArray 0 s = Inl NotModelled"
| "JSONArray (Suc n) s =
     (case scan_once n s of
        Inl e \<Rightarrow> Inl e
      | Inr (v, rest) \<Rightarrow>
          (case skip_ws rest of
             [] \<Rightarrow> Inl JSONDecodeError
           | c # rest' \<Rightarrow>
               if c = CHR '']'' then Inr ([v], rest')
               else if c = CHR '','' then
                 (case JSONArray n (skip_ws rest') of
                    Inl e \<Rightarrow> Inl e
                  | Inr (values, rest'') \<Rightarrow> Inr (v # values, rest''))
               else Inl JSONDecodeError))"
| "JSONObject 0 s = Inl NotModelled"
| "JSONObject (Suc n) [] = Inl JSONDecodeError"
| "JSONObject (Suc n) (c # cs) =
     (if c \<noteq> CHR 0x22 then Inl JSONDecodeError
      else
        (case scanstring cs of
           Inl e \<Rightarrow> Inl e
         | Inr (key, rest) \<Rightarrow>
             (case skip_ws rest of
                [] \<Rightarrow> Inl JSONDecodeError
              | c1 # rest1 \<Rightarrow>
                  if c1 \<noteq> CHR '':'' then Inl JSONDecodeError
                  else
                    (case scan_once n (skip_ws rest1) of
                       Inl e \<Rightarrow> Inl e
                     | Inr (v, rest2) \<Rightarrow>
                         (case skip_ws rest2 of
                            [] \<Rightarrow> Inl JSONDecodeError
                          | c3 # rest3 \<Rightarrow>
                              if c3 = CHR ''}'' then Inr ([(key, v)], rest3)
                              else if c3 = CHR '','' then
                                (case JSONObject n (skip_ws rest3) of
                                   Inl e \<Rightarrow> Inl e
                                 | Inr (pairs, rest4) \<Rightarrow> Inr ((key, v) # pairs, rest4))
                              else Inl JSONDecodeError)))))"

definition loads :: "string \<Rightarrow> error + json" where
  "loads s =
     (case scan_once (2 * length s + 2) (skip_ws s) of
        Inl e \<Rightarrow> Inl e
      | Inr (obj, rest) \<Rightarrow> if skip_ws rest = [] then Inr obj else Inl JSONDecodeError)"

section \<open>The crawler (crawler/spiders/superside.py)\<close>

definition spider_name :: string where
  "spider_name = ''Superside''"

definition page_name :: "string \<Rightarrow> string" where
  "page_name url = map (\<lambda>c. if c = CHR ''/'' then CHR ''-'' else c) (last (split_scheme [] url))"

definition page_name_cleaned :: "string \<Rightarrow> string" where
  "page_name_cleaned url =
     map (\<lambda>i. if (of_char i :: nat) < 128 then i else CHR ''-'') (page_name url)"

definition file_path :: "string \<Rightarrow> string" where
  "file_path url = ''pages/'' @ spider_name @ ''/'' @ page_name_cleaned url @ ''.json''"

text \<open>\<open>parse_item(response)\<close>, of a response with the given \<open>url\<close> and \<open>text\<close>.\<close>

definition parse_item :: "(json \<Rightarrow> string) \<Rightarrow> bucket \<Rightarrow> string \<Rightarrow> string \<Rightarrow> bucket" where
  "parse_item json_dumps b url text =
     save_dict_to_json json_dumps b
       (JDict [(''url'', JStr url), (''content'', JStr text)]) (file_path url)"

section \<open>Extraction (processing/\_base.py)\<close>

text \<open>
  The code reads an lxml tree through its \<open>xpath\<close> method only, with selectors that
  select text and attribute values. A tree is that method: the strings a selector
  selects, in document order.
\<close>

type_synonym tree = "string \<Rightarrow> string list"

definition invalid_pages :: "string list" where
  "invalid_pages = [''-blog-author-'', ''-blog-authors-'', ''-blog-category-'', ''-blog-tag-'']"

text \<open>\<open>substring in file\<close>\<close>

definition contains :: "string \<Rightarrow> string \<Rightarrow> bool" where
  "contains file substring = (\<exists>t \<in> set (suffixes file). prefix substring t)"

text \<open>\<open>get_files_paths\<close>, of the paths \<open>files\<close> that \<open>glob\<close> returned.\<close>

definition get_files_paths :: "string list \<Rightarrow> string list" where
  "get_files_paths files =
     filter (\<lambda>file. \<not> (\<exists>substring \<in> set invalid_pages. contains file substring)) files"

text \<open>
  \<open>re.sub(re.compile("<.*?>"), "", text)\<close>. At a \<open><\<close> the pattern matches up to the
  next \<open>>\<close>, unless a newline comes first, which \<open>.\<close> does not match; \<open>tag_end\<close>
  returns the text after the match.
\<close>

fun tag_end :: "string \<Rightarrow> string option" where
  "tag_end [] = None"
| "tag_end (c # cs) =
     (if c = CHR ''>'' then Some cs
      else if c = CHR ''\<newline>'' then None
      else tag_end cs)"

function cleanhtml :: "string \<Rightarrow> string" where
  "cleanhtml [] = []"
| "cleanhtml (c # cs) =
     (if c = CHR ''<'' then
        (case tag_end cs of
           Some rest \<Rightarrow> cleanhtml rest
         | None \<Rightarrow> c # cleanhtml cs)
      else c # cleanhtml cs)"
  by pat_completeness auto
termination
proof (relation "measure length")
  fix c :: char and cs rest :: string
  assume "tag_end cs = Some rest"
  then have "length rest \<le> length cs"
    by (induction cs) (auto split: if_splits)
  then show "(rest, c # cs) \<in> measure length" by simp
qed simp_all

definition extract_text_by_xpath :: "tree \<Rightarrow> string \<Rightarrow> string option" where
  "extract_text_by_xpath tree selector =
     (let data = tree selector
      in if data = [] then None
         else Some (str_replace ''&nbsp;'' '''' (str_replace ''\<newline>'' '''' (py_join '' '' data))))"

text \<open>
  Modelled from the spec: \<open>nested_lookup\<close> of the package nested-lookup, which is not
  under src/. The spec (4.2, 9): a recursive tree walk that collects all the values under
  a given key name at any depth; all matches are collected, not just the first.
\<close>

fun nested_lookup :: "string \<Rightarrow> json \<Rightarrow> json list"
  and nested_lookup_list :: "string \<Rightarrow> json list \<Rightarrow> json list"
  and nested_lookup_items :: "string \<Rightarrow> (string \<times> json) list \<Rightarrow> json list" where
  "nested_lookup key (JList ds) = nested_lookup_list key ds"
| "nested_lookup key (JDict kvs) = nested_lookup_items key kvs"
| "nested_lookup key JNull = []"
| "nested_lookup key (JBool b) = []"
| "nested_lookup key (JInt n) = []"
| "nested_lookup key (JStr s) = []"
| "nested_lookup_list key [] = []"
| "nested_lookup_list key (d # ds) = nested_lookup key d @ nested_lookup_list key ds"
| "nested_lookup_items key [] = []"
| "nested_lookup_items key ((k, v) # kvs) =
     (if key = k then [v] else []) @ nested_lookup key v @ nested_lookup_items key kvs"

text \<open>
  The list \<open>next_data\<close> of \<open>extract_next_data\<close>. The lookup of \<open>title\<close> is made and
  its result dropped, as in the source.
\<close>

definition next_data :: "json \<Rightarrow> json list" where
  "next_data data_parsed =
     (let paragraph = nested_lookup ''paragraph'' data_parsed;
          body = nested_lookup ''body'' data_parsed;
          content = nested_lookup ''content'' data_parsed;
          _ = nested_lookup ''title'' data_parsed
      in paragraph @ body @ content)"

text \<open>
  \<open>[self.cleanhtml(text.strip()) for text in next_data if text]\<close>: a value that is
  true and not a \<open>str\<close> has no \<open>strip\<close>.
\<close>

fun next_data_cleaned :: "json list \<Rightarrow> error + string list" where
  "next_data_cleaned [] = Inr []"
| "next_data_cleaned (text # texts) =
     (if \<not> truthy text then next_data_cleaned texts
      else (case text of
              JStr s \<Rightarrow>
                (case next_data_cleaned texts of
                   Inl e \<Rightarrow> Inl e
                 | Inr cleaned \<Rightarrow> Inr (cleanhtml (strip s) # cleaned))
            | _ \<Rightarrow> Inl AttributeError))"

text \<open>\<open>extract_next_data\<close> from the parsed payload on.\<close>

definition next_data_text :: "json \<Rightarrow> error + string option" where
  "next_data_text data_parsed =
     (case next_data_cleaned (next_data data_parsed) of
        Inl e \<Rightarrow> Inl e
      | Inr cleaned \<Rightarrow>
          (let text = str_replace ''&nbsp;'' '''' (str_replace ''\<newline>'' '''' (py_join '' '' cleaned))
           in Inr (if text = [] then None else Some text)))"

definition next_data_selector :: string where
  "next_data_selector = ''//script[@id='' @ [CHR 0x27] @ ''__NEXT_DATA__'' @ [CHR 0x27] @ '']//text()''"

definition extract_next_data :: "(string \<Rightarrow> error + json) \<Rightarrow> tree \<Rightarrow> error + string option" where
  "extract_next_data json_loads tree =
     (case tree next_data_selector of
        [] \<Rightarrow> Inl IndexError
      | data # _ \<Rightarrow>
          (case json_loads data of
             Inl e \<Rightarrow> Inl e
           | Inr data_parsed \<Rightarrow> next_data_text data_parsed))"

section \<open>The batch driver (processing/superside.py)\<close>

text \<open>A document of the collection; \<open>None\<close> is \<open>JNull\<close> in \<open>url\<close>.\<close>

record item =
  url :: json
  title :: "string option"
  description :: "string option"
  texts :: "string option"
  updated_at :: nat

text \<open>
  Modelled from the spec: \<open>collection.replace_one(filter={"url": u}, replacement,
  upsert=True)\<close> of pymongo, which is not under src/. The spec (4.4): upsert replaces the
  single document matching the filter with the record, or inserts the record if none
  matches. The first document whose \<open>url\<close> is \<open>u\<close> is the one replaced.
\<close>

fun replace_one :: "item list \<Rightarrow> json \<Rightarrow> item \<Rightarrow> item list" where
  "replace_one [] u replacement = [replacement]"
| "replace_one (d # ds) u replacement =
     (if url d = u then replacement # ds else d # replace_one ds u replacement)"

definition title_selector :: string where
  \<open>title_selector = ''//meta[@property="og:title"]//@content''\<close>

definition description_selector :: string where
  \<open>description_selector = ''//meta[@name="description"]//@content''\<close>

definition texts_selector :: string where
  "texts_selector = ''//p//text()''"

text \<open>
  The body of the loop of \<open>run\<close> up to \<open>item\<close>. \<open>html.fromstring\<close> belongs to lxml
  and is a parameter; it raises TypeError on what is not a string. \<open>t\<close> is what
  \<open>datetime.now()\<close> returns.
\<close>

definition make_item :: "tree \<Rightarrow> json \<Rightarrow> nat \<Rightarrow> item" where
  "make_item tree u t =
     \<lparr>url = u,
      title = extract_text_by_xpath tree title_selector,
      description = extract_text_by_xpath tree description_selector,
      texts = extract_text_by_xpath tree texts_selector,
      updated_at = t\<rparr>"

definition process_file ::
  "(string \<Rightarrow> error + json) \<Rightarrow> (string \<Rightarrow> error + tree) \<Rightarrow> bucket \<Rightarrow> nat \<Rightarrow> string \<Rightarrow> error + item" where
  "process_file json_loads html_fromstring b t file =
     (case read_json json_loads b file of
        Inl e \<Rightarrow> Inl e
      | Inr file_contents \<Rightarrow>
          (case py_get file_contents ''content'' of
             Inl e \<Rightarrow> Inl e
           | Inr content \<Rightarrow>
               (case (case content of JStr s \<Rightarrow> html_fromstring s | _ \<Rightarrow> Inl TypeError) of
                  Inl e \<Rightarrow> Inl e
                | Inr tree \<Rightarrow>
                    (case py_get file_contents ''url'' of
                       Inl e \<Rightarrow> Inl e
                     | Inr u \<Rightarrow> Inr (make_item tree u t)))))"

text \<open>
  How a run ends, and the loop of \<open>run\<close>: \<open>now i\<close> is the clock at the \<open>i\<close>-th file
  of the run. An exception leaves the collection as the files before it made it.
\<close>

datatype outcome = Completed | Raised error

fun run_loop ::
  "(string \<Rightarrow> error + json) \<Rightarrow> (string \<Rightarrow> error + tree) \<Rightarrow> bucket \<Rightarrow> (nat \<Rightarrow> nat) \<Rightarrow> nat \<Rightarrow>
   string list \<Rightarrow> item list \<Rightarrow> outcome \<times> item list" where
  "run_loop json_loads html_fromstring b now i [] collection = (Completed, collection)"
| "run_loop json_loads html_fromstring b now i (file # files) collection =
     (case process_file json_loads html_fromstring b (now i) file of
        Inl e \<Rightarrow> (Raised e, collection)
      | Inr it \<Rightarrow>
          run_loop json_loads html_fromstring b now (Suc i) files
            (replace_one collection (url it) it))"

text \<open>\<open>Superside.run\<close>: iterating over \<open>None\<close> is a TypeError.\<close>

definition run ::
  "(string \<Rightarrow> error + json) \<Rightarrow> (string \<Rightarrow> error + tree) \<Rightarrow> string \<Rightarrow> bucket \<Rightarrow> (nat \<Rightarrow> nat) \<Rightarrow>
   item list \<Rightarrow> outcome \<times> item list" where
  "run json_loads html_fromstring company b now collection =
     (case list_files_from_path b (''pages/'' @ company) of
        None \<Rightarrow> (Raised TypeError, collection)
      | Some files \<Rightarrow> run_loop json_loads html_fromstring b now 0 files collection)"

section \<open>Sample data\<close>

text \<open>
  Concrete inputs for the examples below, in the manner of the repository's tests, which
  put fixed return values in the place of the libraries. \<open>sample_texts\<close> pairs five
  documents with the text \<open>json.dumps\<close> gives them; \<open>sample_dumps\<close> and
  \<open>sample_loads\<close> agree with \<open>json.dumps\<close> and \<open>json.loads\<close> on these pairs and
  are only used there. \<open>sample_pages\<close> pairs three HTML texts with what the selectors
  of \<open>run\<close> select in them; \<open>html.fromstring\<close> raises ParserError on the empty text
  (Document is empty), and so does \<open>sample_fromstring\<close>, which is only used on these
  four texts.
\<close>

definition sample_texts :: "(json \<times> string) list" where
  \<open>sample_texts =
     [(JDict [(''key'', JStr ''value'')], ''{"key": "value"}''),
      (JDict [(''url'', JStr ''http://test.url''),
              (''content'', JStr ''<div><p>Test content</p></div>'')],
       ''{"url": "http://test.url", "content": "<div><p>Test content</p></div>"}''),
      (JDict [(''url'', JStr ''https://www.superside.com/blog/author/jane''),
              (''content'', JStr ''<p>Jane</p>'')],
       ''{"url": "https://www.superside.com/blog/author/jane", "content": "<p>Jane</p>"}''),
      (JDict [(''url'', JStr ''https://www.superside.com/empty''), (''content'', JStr [])],
       ''{"url": "https://www.superside.com/empty", "content": ""}''),
      (JDict [(''url'', JStr ''https://www.superside.com/pricing''),
              (''content'', JStr ''<meta name=description content=Design><p>Plans</p>'')],
       ''{"url": "https://www.superside.com/pricing", "content": "<meta name=description content=Design><p>Plans</p>"}'')]\<close>

definition sample_dumps :: "json \<Rightarrow> string" where
  "sample_dumps v = (case map_of sample_texts v of None \<Rightarrow> [] | Some s \<Rightarrow> s)"

definition sample_loads :: "string \<Rightarrow> error + json" where
  "sample_loads s =
     (case map_of (map (\<lambda>(v, s). (s, v)) sample_texts) s of
        None \<Rightarrow> Inl JSONDecodeError
      | Some v \<Rightarrow> Inr v)"

definition tree_of :: "(string \<times> string list) list \<Rightarrow> tree" where
  "tree_of selections selector =
     (case map_of selections selector of None \<Rightarrow> [] | Some xs \<Rightarrow> xs)"

definition sample_pages :: "(string \<times> (string \<times> string list) list) list" where
  "sample_pages =
     [(''<div><p>Test content</p></div>'', [(texts_selector, [''Test content''])]),
      (''<p>Jane</p>'', [(texts_selector, [''Jane''])]),
      (''<meta name=description content=Design><p>Plans</p>'',
       [(description_selector, [''Design'']), (texts_selector, [''Plans''])])]"

definition sample_fromstring :: "string \<Rightarrow> error + tree" where
  "sample_fromstring s =
     (case map_of sample_pages s of None \<Rightarrow> Inl ParserError | Some t \<Rightarrow> Inr (tree_of t))"

text \<open>The record \<open>run\<close> makes of a page that only has paragraph text.\<close>

definition text_item :: "string \<Rightarrow> string \<Rightarrow> nat \<Rightarrow> item" where
  "text_item u s t =
     \<lparr>url = JStr u, title = None, description = None, texts = Some s, updated_at = t\<rparr>"

text \<open>
  Buckets as the crawler fills them. The keys of each are in the order of their bytes,
  which is the order in which the service lists them.
\<close>

definition test_page :: bucket where
  "test_page = parse_item sample_dumps [] ''http://test.url'' ''<div><p>Test content</p></div>''"

definition two_pages :: bucket where
  "two_pages =
     parse_item sample_dumps
       (parse_item sample_dumps [] ''https://www.superside.com/empty'' [])
       ''https://www.superside.com/pricing''
       ''<meta name=description content=Design><p>Plans</p>''"

definition three_pages :: bucket where
  "three_pages =
     parse_item sample_dumps
       (parse_item sample_dumps
          (parse_item sample_dumps [] ''https://www.superside.com/blog/author/jane''
             ''<p>Jane</p>'')
          ''https://www.superside.com/empty'' [])
       ''https://www.superside.com/pricing''
       ''<meta name=description content=Design><p>Plans</p>''"

section \<open>What the spec says, for comparison\<close>


text \<open>
  The spec's words for the key of a Page Capture (3): path separators and non-ASCII
  characters are replaced with the filler character.
\<close>

definition sanitize :: "char \<Rightarrow> char" where
  "sanitize c = (if c = CHR ''/'' \<or> \<not> (of_char c :: nat) < 128 then CHR ''-'' else c)"

section \<open>Measures for the proofs\<close>

text \<open>
  What can follow a value in a text that \<open>dumps\<close> wrote, the characters such a value
  starts with, and a bound on the nested calls that reading a value takes.
\<close>

definition ok_rest :: "string \<Rightarrow> bool" where
  "ok_rest rest = (case rest of [] \<Rightarrow> True
     | c # _ \<Rightarrow> c = CHR '','' \<or> c = CHR '']'' \<or> c = CHR ''}'')"



section \<open>Properties\<close>

subsection \<open>Shared lemmas: strings\<close>

lemma contains_Cons:
  "contains (c # cs) p \<longleftrightarrow> prefix p (c # cs) \<or> contains cs p"
  by (auto simp: contains_def)

lemma split_scheme_nonempty: "split_scheme cur s \<noteq> []"
  by (induction cur s rule: split_scheme.induct) auto

text \<open>A text without \<open>://\<close> is one piece.\<close>

lemma split_scheme_plain:
  "\<not> contains r ''://'' \<Longrightarrow> split_scheme cur r = [rev cur @ r]"
proof (induction r arbitrary: cur)
  case Nil
  then show ?case by simp
next
  case (Cons c cs)
  from Cons.prems have np: "\<not> prefix ''://'' (c # cs)" and nc: "\<not> contains cs ''://''"
    by (simp_all add: contains_Cons)
  have "\<not> (c = CHR '':'' \<and> take 2 cs = ''//'')"
  proof
    assume a: "c = CHR '':'' \<and> take 2 cs = ''//''"
    then have "cs = ''//'' @ drop 2 cs" by (metis append_take_drop_id)
    with a have "c # cs = ''://'' @ drop 2 cs" by simp
    then have "prefix ''://'' (c # cs)" by (metis prefixI)
    with np show False by simp
  qed
  then show ?case using Cons.IH [OF nc] by simp
qed

text \<open>The last piece of \<open>s://r\<close> is \<open>r\<close>, when \<open>r\<close> holds no \<open>://\<close>.\<close>

lemma split_scheme_last:
  "\<not> contains r ''://'' \<Longrightarrow> last (split_scheme cur (s @ ''://'' @ r)) = r"
proof (induction "length s" arbitrary: s cur rule: less_induct)
  case less
  show ?case
  proof (cases s)
    case Nil
    then show ?thesis using split_scheme_plain [OF less.prems, of "[]"] by simp
  next
    case (Cons c s')
    define rest where "rest = s' @ ''://'' @ r"
    have whole: "s @ ''://'' @ r = c # rest"
      using Cons by (simp add: rest_def)
    show ?thesis
    proof (cases "c = CHR '':'' \<and> take 2 rest = ''//''")
      case True
      then obtain s'' where s': "s' = ''//'' @ s''"
        unfolding rest_def by (cases s'; cases "tl s'") auto
      have "length s'' < length s" using Cons s' by simp
      from less.hyps [OF this less.prems, of "[]"]
      have "last (split_scheme [] (s'' @ ''://'' @ r)) = r" .
      moreover from True
      have "split_scheme cur (c # rest) = rev cur # split_scheme [] (drop 2 rest)"
        by simp
      moreover have "drop 2 rest = s'' @ ''://'' @ r"
        using s' by (simp add: rest_def)
      ultimately show ?thesis
        unfolding whole by (simp add: split_scheme_nonempty)
    next
      case False
      have "length s' < length s" using Cons by simp
      from less.hyps [OF this less.prems, of "c # cur"]
      have "last (split_scheme (c # cur) rest) = r"
        by (simp add: rest_def)
      moreover from False
      have "split_scheme cur (c # rest) = split_scheme (c # cur) rest"
        by auto
      ultimately show ?thesis unfolding whole by simp
    qed
  qed
qed

lemma page_name_cleaned_eq:
  "page_name_cleaned u = map sanitize (last (split_scheme [] u))"
  by (auto simp: page_name_cleaned_def page_name_def sanitize_def)

lemma sanitize_inj:
  assumes "map sanitize r1 = map sanitize r2"
    and "\<forall>c \<in> set r1 \<union> set r2. c \<noteq> CHR ''-'' \<and> (of_char c :: nat) < 128"
  shows "r1 = r2"
proof -
  have "inj_on sanitize (set r1 \<union> set r2)"
  proof (rule inj_onI)
    fix x y
    assume "x \<in> set r1 \<union> set r2" "y \<in> set r1 \<union> set r2" "sanitize x = sanitize y"
    with assms(2) show "x = y"
      by (auto simp: sanitize_def split: if_splits)
  qed
  with assms(1) show ?thesis by (rule inj_on_map_eq_map [THEN iffD1, rotated])
qed

lemma cleanhtml_test: "cleanhtml ''<div>Test</div>'' = ''Test''"
  by simp

lemma tag_end_plain:
  "CHR ''>'' \<notin> set tag \<Longrightarrow> CHR ''\<newline>'' \<notin> set tag \<Longrightarrow>
   tag_end (tag @ CHR ''>'' # rest) = Some rest"
  by (induction tag) auto

lemma cleanhtml_plain:
  "CHR ''<'' \<notin> set s \<Longrightarrow> cleanhtml (s @ rest) = s @ cleanhtml rest"
  by (induction s) auto

text \<open>
  Where no tag holds a newline, \<open>cleanhtml\<close> does what its docstring says: of
  \<open><tag>text</tag>\<close> it keeps the text.
\<close>

lemma cleanhtml_tagged:
  assumes "CHR ''>'' \<notin> set tag" "CHR ''\<newline>'' \<notin> set tag" "CHR ''<'' \<notin> set s"
  shows "cleanhtml (''<'' @ tag @ ''>'' @ s @ ''</'' @ tag @ ''>'') = s"
proof -
  have 1: "tag_end (tag @ CHR ''>'' # (s @ ''</'' @ tag @ ''>'')) = Some (s @ ''</'' @ tag @ ''>'')"
    using assms by (intro tag_end_plain)
  have 2: "tag_end (CHR ''/'' # tag @ ''>'') = Some []"
    using tag_end_plain [of "CHR ''/'' # tag" "[]"] assms by simp
  show ?thesis using 1 2 assms by (simp add: cleanhtml_plain)
qed

subsection \<open>Shared lemmas: the bucket\<close>

lemma list_files_none:
  assumes "\<forall>obj \<in> set b. \<not> prefix path (fst obj)"
  shows "list_files_from_path b path = None"
proof -
  have "filter (\<lambda>obj. prefix path (fst obj)) b = []"
    using assms by (simp add: filter_empty_conv)
  then show ?thesis
    by (simp add: list_files_from_path_def list_objects_v2_def)
qed

lemma map_of_put_object: "map_of (put_object b key body) = (map_of b)(key \<mapsto> body)"
  by (induction b key body rule: put_object.induct) auto

lemma put_object_twice: "put_object (put_object b key v1) key v2 = put_object b key v2"
  by (induction b key v1 rule: put_object.induct) auto

lemma keys_put_object: "set (map fst (put_object b key body)) = insert key (set (map fst b))"
  by (induction b key body rule: put_object.induct) auto

lemma distinct_put_object:
  "distinct (map fst b) \<Longrightarrow> distinct (map fst (put_object b key body))"
proof (induction b key body rule: put_object.induct)
  case (1 key body)
  then show ?case by simp
next
  case (2 k v objs key body)
  then show ?case using keys_put_object [of objs key body] by auto
qed

lemma one_object_per_key:
  "distinct (map fst b) \<Longrightarrow> key \<in> set (map fst b) \<Longrightarrow>
   length (filter (\<lambda>obj. fst obj = key) b) = 1"
proof (induction b)
  case Nil
  then show ?case by simp
next
  case (Cons obj objs)
  show ?case
  proof (cases "fst obj = key")
    case True
    with Cons.prems have "\<forall>x \<in> set objs. fst x \<noteq> key"
      by (metis distinct.simps(2) imageI list.set_map list.simps(9))
    then have "filter (\<lambda>obj. fst obj = key) objs = []"
      by (simp add: filter_empty_conv)
    with True show ?thesis by simp
  next
    case False
    with Cons show ?thesis by auto
  qed
qed

subsection \<open>Shared lemmas: the collection and the loop\<close>

lemma replace_one_urls:
  "set (map url (replace_one c (url r) r)) = insert (url r) (set (map url c))"
  by (induction c) auto

lemma replace_one_distinct:
  "distinct (map url c) \<Longrightarrow> distinct (map url (replace_one c (url r) r))"
proof (induction c)
  case Nil
  then show ?case by simp
next
  case (Cons d ds)
  then show ?case using replace_one_urls [of ds r] by auto
qed

lemma replace_one_filter:
  "distinct (map url c) \<Longrightarrow> filter (\<lambda>d. url d = url r) (replace_one c (url r) r) = [r]"
proof (induction c)
  case Nil
  then show ?case by simp
next
  case (Cons d ds)
  show ?case
  proof (cases "url d = url r")
    case True
    with Cons.prems have "url r \<notin> set (map url ds)" by auto
    then have "\<forall>x \<in> set ds. url x \<noteq> url r"
      by (metis imageI list.set_map)
    then have "filter (\<lambda>d. url d = url r) ds = []"
      by (simp add: filter_empty_conv)
    with True show ?thesis by simp
  next
    case False
    with Cons show ?thesis by simp
  qed
qed

lemma replace_one_length:
  "length (replace_one c (url r) r)
   = (if url r \<in> set (map url c) then length c else Suc (length c))"
  by (induction c) auto

lemma run_loop_distinct:
  "distinct (map url c) \<Longrightarrow>
   distinct (map url (snd (run_loop json_loads html_fromstring b now i files c)))"
proof (induction files arbitrary: i c)
  case Nil
  then show ?case by simp
next
  case (Cons f files)
  show ?case
  proof (cases "process_file json_loads html_fromstring b (now i) f")
    case (Inl e)
    with Cons.prems show ?thesis by simp
  next
    case (Inr it)
    have "distinct (map url (replace_one c (url it) it))"
      using Cons.prems by (rule replace_one_distinct)
    from Cons.IH [OF this] Inr show ?thesis by simp
  qed
qed

lemma process_file_url:
  "process_file json_loads html_fromstring b t1 f = Inr i1 \<Longrightarrow>
   process_file json_loads html_fromstring b t2 f = Inr i2 \<Longrightarrow> url i1 = url i2"
  by (auto simp: process_file_def make_item_def split: sum.splits)

lemma run_loop_append:
  "run_loop json_loads html_fromstring b now i (xs @ ys) c =
     (case run_loop json_loads html_fromstring b now i xs c of
        (Completed, c') \<Rightarrow> run_loop json_loads html_fromstring b now (i + length xs) ys c'
      | (Raised e, c') \<Rightarrow> (Raised e, c'))"
  by (induction xs arbitrary: i c) (auto split: sum.splits prod.splits outcome.splits)

text \<open>
  The URLs of the records after a loop that completes: those there before, and the URL
  of every file of the loop.
\<close>

lemma urls_of_capture:
  assumes "process_file json_loads html_fromstring b t0 f = Inr it"
  shows "{u. \<exists>it' t. process_file json_loads html_fromstring b t f = Inr it' \<and> url it' = u} = {url it}"
proof (rule set_eqI)
  fix u
  show "u \<in> {u. \<exists>it' t. process_file json_loads html_fromstring b t f = Inr it' \<and> url it' = u}
      \<longleftrightarrow> u \<in> {url it}"
  proof
    assume "u \<in> {u. \<exists>it' t. process_file json_loads html_fromstring b t f = Inr it' \<and> url it' = u}"
    then obtain it' t where p: "process_file json_loads html_fromstring b t f = Inr it'"
      and u: "url it' = u" by blast
    from p assms have "url it' = url it" by (rule process_file_url)
    with u show "u \<in> {url it}" by simp
  next
    assume "u \<in> {url it}"
    with assms show "u \<in> {u. \<exists>it' t. process_file json_loads html_fromstring b t f = Inr it' \<and> url it' = u}"
      by blast
  qed
qed

lemma run_loop_urls:
  "run_loop json_loads html_fromstring b now i files c = (Completed, c') \<Longrightarrow>
   set (map url c') = set (map url c)
     \<union> (\<Union>f \<in> set files.
          {u. \<exists>it t. process_file json_loads html_fromstring b t f = Inr it \<and> url it = u})"
proof (induction files arbitrary: i c)
  case Nil
  then show ?case by simp
next
  case (Cons f files)
  show ?case
  proof (cases "process_file json_loads html_fromstring b (now i) f")
    case (Inl e)
    with Cons.prems show ?thesis by simp
  next
    case (Inr it)
    with Cons.prems have
      "run_loop json_loads html_fromstring b now (Suc i) files (replace_one c (url it) it)
       = (Completed, c')"
      by simp
    from Cons.IH [OF this] have "set (map url c') = set (map url (replace_one c (url it) it))
       \<union> (\<Union>f \<in> set files.
          {u. \<exists>it t. process_file json_loads html_fromstring b t f = Inr it \<and> url it = u})" .
    then have "set (map url c') = insert (url it) (set (map url c))
       \<union> (\<Union>f \<in> set files.
          {u. \<exists>it t. process_file json_loads html_fromstring b t f = Inr it \<and> url it = u})"
      by (simp only: replace_one_urls)
    then show ?thesis
      by (simp only: list.set UN_insert urls_of_capture [OF Inr]) blast
  qed
qed

lemma set_replace_one:
  "distinct (map url c) \<Longrightarrow>
   set (replace_one c (url r) r) = insert r {d \<in> set c. url d \<noteq> url r}"
proof (induction c)
  case Nil
  then show ?case by simp
next
  case (Cons d ds)
  show ?case
  proof (cases "url d = url r")
    case True
    with Cons.prems have "\<forall>x \<in> set ds. url x \<noteq> url r"
      by (metis distinct.simps(2) imageI list.set_map list.simps(9))
    with True show ?thesis by auto
  next
    case False
    with Cons show ?thesis by auto
  qed
qed

lemma one_record:
  "distinct (map url c) \<Longrightarrow> d \<in> set c \<Longrightarrow> filter (\<lambda>x. url x = url d) c = [d]"
proof (induction c)
  case Nil
  then show ?case by simp
next
  case (Cons e es)
  show ?case
  proof (cases "d = e")
    case True
    with Cons.prems have "\<forall>x \<in> set es. url x \<noteq> url d"
      by (metis distinct.simps(2) imageI list.set_map list.simps(9))
    then have "filter (\<lambda>x. url x = url d) es = []"
      by (simp add: filter_empty_conv)
    with True show ?thesis by simp
  next
    case False
    with Cons.prems have in_es: "d \<in> set es" by simp
    with Cons.prems have "url e \<noteq> url d"
      by (metis distinct.simps(2) imageI list.set_map list.simps(9))
    with Cons in_es show ?thesis by simp
  qed
qed

lemma run_loop_records:
  "distinct (map url c) \<Longrightarrow>
   run_loop json_loads html_fromstring b now i files c = (Completed, c') \<Longrightarrow>
   d \<in> set c' \<Longrightarrow>
   (d \<in> set c \<and> url d \<notin> (\<Union>f \<in> set files.
          {u. \<exists>it t. process_file json_loads html_fromstring b t f = Inr it \<and> url it = u}))
   \<or> (\<exists>j < length files.
         process_file json_loads html_fromstring b (now (i + j)) (files ! j) = Inr d)"
proof (induction files arbitrary: i c)
  case Nil
  then show ?case by simp
next
  case (Cons f files)
  show ?case
  proof (cases "process_file json_loads html_fromstring b (now i) f")
    case (Inl e)
    with Cons.prems show ?thesis by simp
  next
    case (Inr it)
    let ?c1 = "replace_one c (url it) it"
    let ?U = "\<lambda>fs. (\<Union>f \<in> set fs.
          {u. \<exists>it t. process_file json_loads html_fromstring b t f = Inr it \<and> url it = u})"
    have d1: "distinct (map url ?c1)"
      using Cons.prems(1) by (rule replace_one_distinct)
    from Inr Cons.prems(2) have loop:
      "run_loop json_loads html_fromstring b now (Suc i) files ?c1 = (Completed, c')"
      by simp
    from Cons.IH [OF d1 loop Cons.prems(3)]
    consider (old) "d \<in> set ?c1" "url d \<notin> ?U files"
      | (new) j where "j < length files"
          "process_file json_loads html_fromstring b (now (Suc i + j)) (files ! j) = Inr d"
      by blast
    then show ?thesis
    proof cases
      case old
      from old(1) have "d = it \<or> (d \<in> set c \<and> url d \<noteq> url it)"
        using set_replace_one [OF Cons.prems(1), of it] by auto
      then show ?thesis
      proof
        assume "d = it"
        with Inr have "process_file json_loads html_fromstring b (now (i + 0)) ((f # files) ! 0) = Inr d"
          by simp
        then show ?thesis by blast
      next
        assume a: "d \<in> set c \<and> url d \<noteq> url it"
        have "?U (f # files) = insert (url it) (?U files)"
          by (simp only: list.set UN_insert urls_of_capture [OF Inr]) blast
        with a old(2) show ?thesis by simp
      qed
    next
      case new
      then have "Suc j < length (f # files)"
        and "process_file json_loads html_fromstring b (now (i + Suc j)) ((f # files) ! Suc j) = Inr d"
        by simp_all
      then show ?thesis by blast
    qed
  qed
qed

subsection \<open>Shared lemmas: the nested search\<close>







subsection \<open>Shared lemmas: the examples\<close>

lemmas sample_defs = sample_dumps_def sample_loads_def sample_texts_def
  sample_fromstring_def sample_pages_def tree_of_def

lemmas key_defs = file_path_def spider_name_def page_name_cleaned_def page_name_def

lemmas s3_defs = parse_item_def save_dict_to_json_def read_json_def
  list_files_from_path_def list_objects_v2_def max_keys_def

lemmas run_defs = run_def process_file_def make_item_def extract_text_by_xpath_def
  texts_selector_def title_selector_def description_selector_def text_item_def

lemma test_page_eq: \<open>test_page =
  [(''pages/Superside/test.url.json'',
    ''{"url": "http://test.url", "content": "<div><p>Test content</p></div>"}'')]\<close>
  by (simp add: test_page_def parse_item_def save_dict_to_json_def key_defs
      sample_dumps_def sample_texts_def)

lemma two_pages_eq: \<open>two_pages =
  [(''pages/Superside/www.superside.com-empty.json'',
    ''{"url": "https://www.superside.com/empty", "content": ""}''),
   (''pages/Superside/www.superside.com-pricing.json'',
    ''{"url": "https://www.superside.com/pricing", "content": "<meta name=description content=Design><p>Plans</p>"}'')]\<close>
  by (simp add: two_pages_def parse_item_def save_dict_to_json_def key_defs
      sample_dumps_def sample_texts_def)

lemma three_pages_eq: \<open>three_pages =
  [(''pages/Superside/www.superside.com-blog-author-jane.json'',
    ''{"url": "https://www.superside.com/blog/author/jane", "content": "<p>Jane</p>"}''),
   (''pages/Superside/www.superside.com-empty.json'',
    ''{"url": "https://www.superside.com/empty", "content": ""}''),
   (''pages/Superside/www.superside.com-pricing.json'',
    ''{"url": "https://www.superside.com/pricing", "content": "<meta name=description content=Design><p>Plans</p>"}'')]\<close>
  by (simp add: three_pages_def parse_item_def save_dict_to_json_def key_defs
      sample_dumps_def sample_texts_def)

lemma file_path_of_rest:
  "\<not> contains r ''://'' \<Longrightarrow>
   file_path (scheme @ ''://'' @ r) = ''pages/Superside/'' @ map sanitize r @ ''.json''"
  using split_scheme_last [of r "[]" scheme]
  by (simp add: file_path_def spider_name_def page_name_cleaned_eq)

subsection \<open>Shared lemmas: the JSON text\<close>















lemma skip_ws_delims [simp]:
  "skip_ws (CHR '','' # t) = CHR '','' # t"
  "skip_ws (CHR '']'' # t) = CHR '']'' # t"
  "skip_ws (CHR ''}'' # t) = CHR ''}'' # t"
  "skip_ws (CHR '':'' # t) = CHR '':'' # t"
  "skip_ws (CHR 0x22 # t) = CHR 0x22 # t"
  "skip_ws (CHR '' '' # t) = skip_ws t"
  "skip_ws [] = []"
  by (simp_all add: skip_ws_def is_ws_def)








lemma ok_rest_delims [simp]:
  "ok_rest (CHR '','' # t)" "ok_rest (CHR '']'' # t)" "ok_rest (CHR ''}'' # t)" "ok_rest []"
  by (simp_all add: ok_rest_def)





text \<open>
  The texts of the sample data are the texts \<open>dumps\<close> writes for their documents,
  and \<open>loads\<close> reads the documents from them.
\<close>

lemma sample_texts_dumps:
  "list_all (\<lambda>(v, s). dumps (of_json v) = s) sample_texts"
  unfolding sample_texts_def by code_simp

lemma sample_texts_loads:
  "list_all (\<lambda>(v, s). loads s = Inr v) sample_texts"
  unfolding sample_texts_def by code_simp

subsection \<open>The batch and the invalid pages\<close>

text \<open>
  \<open>get_files_paths\<close> lets no path through that holds one of the invalid-page
  substrings.
\<close>

lemma get_files_paths_valid:
  "f \<in> set (get_files_paths files) \<Longrightarrow> substring \<in> set invalid_pages \<Longrightarrow>
   \<not> contains f substring"
  by (auto simp: get_files_paths_def)

text \<open>
  A run that completes on a collection with at most one record per \<open>url\<close> leaves at most
  one record per \<open>url\<close>, and a record for the URL of every key that was listed.
\<close>

lemma run_one_record_per_url:
  assumes "distinct (map url c)"
    and "run json_loads html_fromstring company b now c = (Completed, c')"
  shows "distinct (map url c')
    \<and> (\<exists>files. list_files_from_path b (''pages/'' @ company) = Some files
         \<and> set (map url c') = set (map url c)
           \<union> (\<Union>f \<in> set files.
               {u. \<exists>it t. process_file json_loads html_fromstring b t f = Inr it \<and> url it = u}))"
proof (cases "list_files_from_path b (''pages/'' @ company)")
  case None
  with assms(2) show ?thesis by (simp add: run_def)
next
  case (Some files)
  with assms(2) have loop:
    "run_loop json_loads html_fromstring b now 0 files c = (Completed, c')"
    by (simp add: run_def)
  have "distinct (map url c')"
    using run_loop_distinct [OF assms(1), of json_loads html_fromstring b now 0 files] loop
    by simp
  with run_loop_urls [OF loop] Some show ?thesis by simp
qed

text \<open>
  C1. The claim: \<open>run\<close> produces one record per distinct URL found and no record for a
  key that holds one of the invalid-page substrings. \<open>run\<close> lists the keys with
  \<open>list_files_from_path\<close> and never consults \<open>invalid_pages\<close>; only
  \<open>get_files_paths\<close>, which \<open>run\<close> does not call, filters. The crawler stores the
  author page below under a key that holds \<open>-blog-author-\<close>; \<open>get_files_paths\<close>
  drops that key, and \<open>run\<close> makes a record of the page.
\<close>

theorem run_keeps_author_page:
  "file_path ''https://www.superside.com/blog/author/jane''
     = ''pages/Superside/www.superside.com-blog-author-jane.json''
   \<and> contains (file_path ''https://www.superside.com/blog/author/jane'') ''-blog-author-''
   \<and> get_files_paths [file_path ''https://www.superside.com/blog/author/jane''] = []
   \<and> run sample_loads sample_fromstring ''Superside''
        (parse_item sample_dumps [] ''https://www.superside.com/blog/author/jane'' ''<p>Jane</p>'')
        (\<lambda>i. i) []
     = (Completed, [text_item ''https://www.superside.com/blog/author/jane'' ''Jane'' 0])"
proof -
  have k: "file_path ''https://www.superside.com/blog/author/jane''
     = ''pages/Superside/www.superside.com-blog-author-jane.json''"
    by (simp add: key_defs)
  have c: "contains ''pages/Superside/www.superside.com-blog-author-jane.json'' ''-blog-author-''"
    by (simp add: contains_Cons)
  have g: "get_files_paths [''pages/Superside/www.superside.com-blog-author-jane.json''] = []"
    using c by (simp add: get_files_paths_def invalid_pages_def)
  have r: "run sample_loads sample_fromstring ''Superside''
        (parse_item sample_dumps [] ''https://www.superside.com/blog/author/jane'' ''<p>Jane</p>'')
        (\<lambda>i. i) []
     = (Completed, [text_item ''https://www.superside.com/blog/author/jane'' ''Jane'' 0])"
    unfolding parse_item_def k
    by (simp add: sample_defs s3_defs run_defs)
  show ?thesis unfolding k using k c g r by simp
qed

subsection \<open>The fallback extraction without its script tag\<close>

text \<open>
  C2. The claim: when the script tag \<open>__NEXT_DATA__\<close> is absent, \<open>extract_next_data\<close>
  returns \<open>None\<close> and raises nothing. The code indexes the empty selection with
  \<open>[0]\<close>: it raises IndexError, whatever \<open>json.loads\<close> does.
\<close>

theorem extract_next_data_missing_script:
  "tree next_data_selector = [] \<Longrightarrow> extract_next_data json_loads tree = Inl IndexError"
  by (simp add: extract_next_data_def)

theorem extract_next_data_missing_script_witness:
  "extract_next_data sample_loads (tree_of [(texts_selector, [''Plans''])]) = Inl IndexError"
proof -
  have "tree_of [(texts_selector, [''Plans''])] next_data_selector = []"
    by (simp add: tree_of_def texts_selector_def next_data_selector_def)
  then show ?thesis by (rule extract_next_data_missing_script)
qed

subsection \<open>One bad page in a batch\<close>

text \<open>
  C3, as the claim states it: a page that fails does not abort the batch. It does. The
  bucket \<open>two_pages\<close> holds a capture with an empty content and the capture of the
  pricing page, which can be extracted; \<open>run\<close> raises the ParserError of the first
  and makes no record of the second.
\<close>

theorem run_aborts_on_bad_page:
  "run sample_loads sample_fromstring ''Superside'' two_pages (\<lambda>i. i) []
     = (Raised ParserError, [])
   \<and> process_file sample_loads sample_fromstring two_pages 1
        ''pages/Superside/www.superside.com-pricing.json''
      = Inr ((text_item ''https://www.superside.com/pricing'' ''Plans'' 1)
               \<lparr>description := Some ''Design''\<rparr>)"
  unfolding two_pages_eq
  by (simp add: sample_defs s3_defs run_defs)

text \<open>
  C3, amended. \<open>run\<close> has no handler: it stops at the first page whose extraction
  raises, with that exception. The collection then holds what the pages listed before
  it made of it, and the pages listed after it are not processed, whatever they are.
\<close>

theorem run_stops_at_first_failure:
  assumes "list_files_from_path b (''pages/'' @ company) = Some (before @ bad # rest)"
    and "run_loop json_loads html_fromstring b now 0 before c = (Completed, c')"
    and "process_file json_loads html_fromstring b (now (length before)) bad = Inl e"
  shows "run json_loads html_fromstring company b now c = (Raised e, c')"
  using assms by (simp add: run_def run_loop_append)

theorem run_stops_at_first_failure_witness:
  "run sample_loads sample_fromstring ''Superside'' three_pages (\<lambda>i. i) []
   = (Raised ParserError, [text_item ''https://www.superside.com/blog/author/jane'' ''Jane'' 0])"
proof -
  have 1: "list_files_from_path three_pages (''pages/'' @ ''Superside'')
     = Some ([''pages/Superside/www.superside.com-blog-author-jane.json'']
         @ ''pages/Superside/www.superside.com-empty.json''
         # [''pages/Superside/www.superside.com-pricing.json''])"
    unfolding three_pages_eq by (simp add: s3_defs)
  have 2: "run_loop sample_loads sample_fromstring three_pages (\<lambda>i. i) 0
       [''pages/Superside/www.superside.com-blog-author-jane.json''] []
     = (Completed, [text_item ''https://www.superside.com/blog/author/jane'' ''Jane'' 0])"
    unfolding three_pages_eq by (simp add: sample_defs s3_defs run_defs)
  have 3: "process_file sample_loads sample_fromstring three_pages
       ((\<lambda>i. i) (length [''pages/Superside/www.superside.com-blog-author-jane.json'']))
       ''pages/Superside/www.superside.com-empty.json'' = Inl ParserError"
    unfolding three_pages_eq by (simp add: sample_defs s3_defs run_defs)
  show ?thesis by (rule run_stops_at_first_failure [OF 1 2 3])
qed

subsection \<open>One record per URL\<close>

text \<open>
  C4. \<open>run\<close> twice over the same Page Captures, the second time on the collection
  the first left, both completing, from a collection with at most one record per
  \<open>url\<close> (an empty one, say). Then for every capture that can be extracted, the
  collection after the second run holds exactly one record of its URL, and that record
  is the one the second run extracted from one of the captures, at the time of the
  second run: the second run has replaced the record of the first. The second run adds
  no document. And whatever files \<open>run\<close> goes through, and however it ends, the
  collection still has at most one record per \<open>url\<close>.
\<close>

theorem extraction_idempotent_per_url:
  assumes "distinct (map url c)"
    and "list_files_from_path b (''pages/'' @ company) = Some files"
    and "run json_loads html_fromstring company b now1 c = (Completed, c1)"
    and "run json_loads html_fromstring company b now2 c1 = (Completed, c2)"
    and "f \<in> set files"
    and "process_file json_loads html_fromstring b t f = Inr it"
  shows "(\<exists>j d. j < length files
          \<and> process_file json_loads html_fromstring b (now2 j) (files ! j) = Inr d
          \<and> filter (\<lambda>x. url x = url it) c2 = [d])
    \<and> length c2 = length c1
    \<and> distinct (map url (snd (run_loop json_loads html_fromstring b now i files' c)))"
proof -
  define U where "U = (\<Union>f \<in> set files.
          {u. \<exists>it t. process_file json_loads html_fromstring b t f = Inr it \<and> url it = u})"
  from assms(2,3) have loop1:
    "run_loop json_loads html_fromstring b now1 0 files c = (Completed, c1)"
    by (simp add: run_def)
  from assms(2,4) have loop2:
    "run_loop json_loads html_fromstring b now2 0 files c1 = (Completed, c2)"
    by (simp add: run_def)
  have d1: "distinct (map url c1)"
    using run_loop_distinct [OF assms(1), of json_loads html_fromstring b now1 0 files] loop1
    by simp
  have d2: "distinct (map url c2)"
    using run_loop_distinct [OF d1, of json_loads html_fromstring b now2 0 files] loop2
    by simp
  have u1: "set (map url c1) = set (map url c) \<union> U"
    unfolding U_def using loop1 by (rule run_loop_urls)
  have u2: "set (map url c2) = set (map url c1) \<union> U"
    unfolding U_def using loop2 by (rule run_loop_urls)
  have same: "set (map url c2) = set (map url c1)"
    unfolding u2 u1 by (simp add: Un_assoc)
  have "card (set (map url c2)) = card (set (map url c1))"
    by (simp only: same)
  then have len: "length c2 = length c1"
    using distinct_card [OF d1] distinct_card [OF d2] by simp
  have in_U: "url it \<in> U"
    unfolding U_def using assms(5,6) by blast
  then have "url it \<in> set (map url c2)" unfolding u2 by simp
  then obtain d where d: "d \<in> set c2" "url d = url it"
    by (metis (no_types, lifting) imageE list.set_map)
  have one: "filter (\<lambda>x. url x = url it) c2 = [d]"
    using one_record [OF d2 d(1)] d(2) by simp
  have "(d \<in> set c1 \<and> url d \<notin> U)
    \<or> (\<exists>j < length files.
          process_file json_loads html_fromstring b (now2 (0 + j)) (files ! j) = Inr d)"
    unfolding U_def using d1 loop2 d(1) by (rule run_loop_records)
  with in_U d(2) obtain j where "j < length files"
    "process_file json_loads html_fromstring b (now2 j) (files ! j) = Inr d"
    by auto
  with one have "\<exists>j d. j < length files
          \<and> process_file json_loads html_fromstring b (now2 j) (files ! j) = Inr d
          \<and> filter (\<lambda>x. url x = url it) c2 = [d]"
    by blast
  moreover have "distinct (map url (snd (run_loop json_loads html_fromstring b now i files' c)))"
    using assms(1) by (rule run_loop_distinct)
  ultimately show ?thesis using len by simp
qed

theorem extraction_idempotent_per_url_witness:
  "run sample_loads sample_fromstring ''Superside'' test_page (\<lambda>i. 1) []
     = (Completed, [text_item ''http://test.url'' ''Test content'' 1])
   \<and> run sample_loads sample_fromstring ''Superside'' test_page (\<lambda>i. 2)
        [text_item ''http://test.url'' ''Test content'' 1]
     = (Completed, [text_item ''http://test.url'' ''Test content'' 2])
   \<and> (\<exists>j d. j < length [''pages/Superside/test.url.json'']
          \<and> process_file sample_loads sample_fromstring test_page ((\<lambda>i. 2) j)
               ([''pages/Superside/test.url.json''] ! j) = Inr d
          \<and> filter (\<lambda>x. url x = url (text_item ''http://test.url'' ''Test content'' 0))
               [text_item ''http://test.url'' ''Test content'' 2] = [d])
   \<and> length [text_item ''http://test.url'' ''Test content'' 2]
        = length [text_item ''http://test.url'' ''Test content'' 1]
   \<and> distinct (map url (snd (run_loop sample_loads sample_fromstring test_page (\<lambda>i. 2) 0
        [''pages/Superside/test.url.json'', ''pages/Superside/test.url.json''] [])))"
proof -
  have p: "process_file sample_loads sample_fromstring test_page t ''pages/Superside/test.url.json''
     = Inr (text_item ''http://test.url'' ''Test content'' t)" for t
    unfolding test_page_eq by (simp add: sample_defs s3_defs run_defs)
  have l: "list_files_from_path test_page (''pages/'' @ ''Superside'')
     = Some [''pages/Superside/test.url.json'']"
    unfolding test_page_eq by (simp add: s3_defs)
  have r1: "run sample_loads sample_fromstring ''Superside'' test_page (\<lambda>i. 1) []
     = (Completed, [text_item ''http://test.url'' ''Test content'' 1])"
    using l p [of 1] by (simp add: run_def)
  have r2: "run sample_loads sample_fromstring ''Superside'' test_page (\<lambda>i. 2)
        [text_item ''http://test.url'' ''Test content'' 1]
     = (Completed, [text_item ''http://test.url'' ''Test content'' 2])"
    using l p [of 2] by (simp add: run_def text_item_def)
  have d: "distinct (map url ([] :: item list))" by simp
  have f: "''pages/Superside/test.url.json'' \<in> set [''pages/Superside/test.url.json'']" by simp
  from extraction_idempotent_per_url [OF d l r1 r2 f p [of 0], of "\<lambda>i. 2" 0
        "[''pages/Superside/test.url.json'', ''pages/Superside/test.url.json'']"]
  show ?thesis using r1 r2 by blast
qed

subsection \<open>The key of a Page Capture\<close>

text \<open>
  C5, as the claim states it: distinct fetched URLs have distinct keys. The two URLs
  below differ and have the same key, since \<open>/\<close> becomes the \<open>-\<close> that the other
  URL already has.
\<close>

theorem capture_key_collision:
  "file_path ''https://www.superside.com/a/b'' = file_path ''https://www.superside.com/a-b''
   \<and> ''https://www.superside.com/a/b'' \<noteq> ''https://www.superside.com/a-b''"
  by (simp add: key_defs)

text \<open>
  C5, amended. The key of a fetched URL \<open>scheme://rest\<close>, where \<open>rest\<close> holds no
  \<open>://\<close>, is \<open>pages/Superside/<name>.json\<close>, the name being \<open>rest\<close> with \<open>-\<close> in
  the place of every \<open>/\<close> and of every non-ASCII character. \<open>parse_item\<close> stores the
  capture under the key of its URL, the bucket then holds exactly one object under that
  key, and fetching the URL again overwrites it. Two URLs of the same scheme whose rests
  hold neither \<open>-\<close> nor a non-ASCII character have the same key only if they are the
  same; other URLs can share a key.
\<close>

theorem capture_key:
  assumes "\<not> contains r1 ''://''" and "\<not> contains r2 ''://''"
    and "distinct (map fst b)"
  shows "file_path (scheme @ ''://'' @ r1) = ''pages/Superside/'' @ map sanitize r1 @ ''.json''
    \<and> map_of (parse_item json_dumps b u body) (file_path u)
        = Some (json_dumps (JDict [(''url'', JStr u), (''content'', JStr body)]))
    \<and> length (filter (\<lambda>obj. fst obj = file_path u) (parse_item json_dumps b u body)) = 1
    \<and> parse_item json_dumps (parse_item json_dumps b u body) u body'
        = parse_item json_dumps b u body'
    \<and> ((\<forall>c \<in> set r1 \<union> set r2. c \<noteq> CHR ''-'' \<and> (of_char c :: nat) < 128) \<longrightarrow>
         file_path (scheme @ ''://'' @ r1) = file_path (scheme @ ''://'' @ r2) \<longrightarrow> r1 = r2)"
proof -
  have 1: "file_path (scheme @ ''://'' @ r1) = ''pages/Superside/'' @ map sanitize r1 @ ''.json''"
    using assms(1) by (rule file_path_of_rest)
  have 2: "map_of (parse_item json_dumps b u body) (file_path u)
        = Some (json_dumps (JDict [(''url'', JStr u), (''content'', JStr body)]))"
    by (simp add: parse_item_def save_dict_to_json_def map_of_put_object)
  have "distinct (map fst (parse_item json_dumps b u body))"
    using assms(3) by (simp add: parse_item_def save_dict_to_json_def distinct_put_object)
  moreover have "file_path u \<in> set (map fst (parse_item json_dumps b u body))"
    using keys_put_object [of b "file_path u"]
    by (simp add: parse_item_def save_dict_to_json_def)
  ultimately have 3:
    "length (filter (\<lambda>obj. fst obj = file_path u) (parse_item json_dumps b u body)) = 1"
    by (rule one_object_per_key)
  have 4: "parse_item json_dumps (parse_item json_dumps b u body) u body'
        = parse_item json_dumps b u body'"
    by (simp add: parse_item_def save_dict_to_json_def put_object_twice)
  have 5: "r1 = r2"
    if ascii: "\<forall>c \<in> set r1 \<union> set r2. c \<noteq> CHR ''-'' \<and> (of_char c :: nat) < 128"
      and same: "file_path (scheme @ ''://'' @ r1) = file_path (scheme @ ''://'' @ r2)"
  proof -
    from same have "map sanitize r1 = map sanitize r2"
      using file_path_of_rest [OF assms(1), of scheme] file_path_of_rest [OF assms(2), of scheme]
      by simp
    then show ?thesis using ascii by (rule sanitize_inj)
  qed
  show ?thesis using 1 2 3 4 5 by blast
qed

theorem capture_key_witness:
  "file_path (''https'' @ ''://'' @ ''www.superside.com/pricing'')
     = ''pages/Superside/'' @ map sanitize ''www.superside.com/pricing'' @ ''.json''
   \<and> map_of (parse_item sample_dumps [] ''https://www.superside.com/empty'' [])
        (file_path ''https://www.superside.com/empty'')
        = Some (sample_dumps (JDict [(''url'', JStr ''https://www.superside.com/empty''),
                                     (''content'', JStr [])]))
   \<and> length (filter (\<lambda>obj. fst obj = file_path ''https://www.superside.com/empty'')
        (parse_item sample_dumps [] ''https://www.superside.com/empty'' [])) = 1
   \<and> parse_item sample_dumps (parse_item sample_dumps [] ''https://www.superside.com/empty'' [])
        ''https://www.superside.com/empty'' []
        = parse_item sample_dumps [] ''https://www.superside.com/empty'' []
   \<and> file_path (''https'' @ ''://'' @ ''www.superside.com/pricing'')
        \<noteq> file_path (''https'' @ ''://'' @ ''www.superside.com/empty'')"
proof -
  have 1: "\<not> contains ''www.superside.com/pricing'' ''://''"
    by (simp add: contains_Cons contains_def)
  have 2: "\<not> contains ''www.superside.com/empty'' ''://''"
    by (simp add: contains_Cons contains_def)
  have 3: "distinct (map fst ([] :: bucket))" by simp
  have 4: "\<forall>c \<in> set ''www.superside.com/pricing'' \<union> set ''www.superside.com/empty''.
      c \<noteq> CHR ''-'' \<and> (of_char c :: nat) < 128"
    by simp
  have 5: "''www.superside.com/pricing'' \<noteq> ''www.superside.com/empty''" by simp
  show ?thesis
    using capture_key [OF 1 2 3, of "''https''" sample_dumps
        "''https://www.superside.com/empty''" "[]" "[]"] 4 5
    by blast
qed

subsection \<open>What the fallback extraction collects\<close>


subsection \<open>Tags that hold a newline\<close>

text \<open>
  C7. The claim: \<open>cleanhtml\<close> removes every span between \<open><\<close> and the next
  \<open>>\<close> and keeps the text outside. The pattern \<open><.*?>\<close> does not match across a
  newline: the opening tag below, which holds one, stays in the result.
\<close>

theorem cleanhtml_newline_in_tag:
  \<open>cleanhtml ''<div\<newline>id="a">Test</div>'' = ''<div\<newline>id="a">Test''\<close>
  by simp

subsection \<open>A selector that selects nothing\<close>



subsection \<open>Put, then get\<close>




subsection \<open>An empty namespace\<close>

text \<open>
  C10. When no key of the bucket has the prefix \<open>pages/<company>\<close>,
  \<open>list_files_from_path\<close> returns \<open>None\<close>, not the empty list, and \<open>run\<close>, which
  iterates over the result, fails with a TypeError and leaves the collection as it was.
\<close>

theorem run_empty_namespace:
  assumes "\<forall>obj \<in> set b. \<not> prefix (''pages/'' @ company) (fst obj)"
  shows "list_files_from_path b (''pages/'' @ company) = None
    \<and> list_files_from_path b (''pages/'' @ company) \<noteq> Some []
    \<and> run json_loads html_fromstring company b now collection = (Raised TypeError, collection)"
  using list_files_none [OF assms] by (simp add: run_def)

theorem run_empty_namespace_witness:
  "list_files_from_path [(''logs/a.json'', ''{}'')] (''pages/'' @ ''Superside'') = None
    \<and> list_files_from_path [(''logs/a.json'', ''{}'')] (''pages/'' @ ''Superside'') \<noteq> Some []
    \<and> run sample_loads sample_fromstring ''Superside''
          [(''logs/a.json'', ''{}'')] (\<lambda>i. i) []
        = (Raised TypeError, [])"
  using run_empty_namespace [of "[(''logs/a.json'', ''{}'')]" "''Superside''"]
  by simp

end
